theory Spec2Isabelle
  imports Main "HOL-Library.AList"
begin

section \<open>The scheduler and job manager of sentinel-webscraper\<close>

text \<open>
  A shallow embedding of \<^verbatim>\<open>src/core/scheduler-job-manager.ts\<close>: the circuit breaker, the
  resource monitor, the priority queue, and the job manager's \<^verbatim>\<open>createJob\<close>,
  \<^verbatim>\<open>executeJob\<close>, \<^verbatim>\<open>runJobWithRetry\<close>, \<^verbatim>\<open>checkDependencies\<close> and
  \<^verbatim>\<open>cleanupExecutionHistory\<close>.

  Conventions.
  \<^item> JavaScript numbers that hold counts, timestamps and delays are integers here
    (\<open>int\<close>, or \<open>nat\<close> for a counter that starts at 0 and is only incremented).
  \<^item> A \<^verbatim>\<open>throw\<close> is the left injection of a sum, a normal return the right one.
  \<^item> An \<^verbatim>\<open>await\<close> that may never settle yields \<open>None\<close>.
\<close>

subsection \<open>Thrown values\<close>

text \<open>
  JavaScript can throw any value. The code distinguishes instances of \<^verbatim>\<open>Error\<close> (of which it
  reads \<^verbatim>\<open>message\<close>) from everything else (which it turns into text with \<^verbatim>\<open>String\<close>).
\<close>

datatype thrown =
  ErrorObj string    \<comment> \<open>an \<^verbatim>\<open>Error\<close> with this message\<close>
| NonError string    \<comment> \<open>any other value; the text is what \<^verbatim>\<open>String(v)\<close> gives\<close>

subsection \<open>CircuitBreaker\<close>

datatype breaker_state = Closed | Open | HalfOpen

record CircuitBreaker =
  failureCount :: nat
  lastFailureTime :: int
  state :: breaker_state
  threshold :: int
  timeout :: int

text \<open>The constructor; \<^verbatim>\<open>new CircuitBreaker(threshold)\<close> leaves the timeout at 60000.\<close>

definition newCircuitBreaker :: "int \<Rightarrow> int \<Rightarrow> CircuitBreaker" where
  "newCircuitBreaker thr tmo =
     \<lparr>failureCount = 0, lastFailureTime = 0, state = Closed, threshold = thr, timeout = tmo\<rparr>"

definition onSuccess :: "CircuitBreaker \<Rightarrow> CircuitBreaker" where
  "onSuccess cb = cb\<lparr>failureCount := 0, state := Closed\<rparr>"

text \<open>\<open>t\<close> is what \<^verbatim>\<open>Date.now()\<close> returns inside \<^verbatim>\<open>onFailure\<close>.\<close>

definition onFailure :: "int \<Rightarrow> CircuitBreaker \<Rightarrow> CircuitBreaker" where
  "onFailure t cb =
     (let cb1 = cb\<lparr>failureCount := failureCount cb + 1, lastFailureTime := t\<rparr>
      in if int (failureCount cb1) \<ge> threshold cb1 then cb1\<lparr>state := Open\<rparr> else cb1)"

definition circuitOpenError :: thrown where
  "circuitOpenError = ErrorObj ''Circuit breaker is OPEN - operation rejected''"

text \<open>
  \<^verbatim>\<open>execute(operation)\<close>. The world \<open>'w\<close> is everything outside the breaker that the operation
  can read and change; \<open>now\<close> reads \<^verbatim>\<open>Date.now()\<close> off it. An operation is a function on the
  world, so that a call that is not made leaves the world as it was, whatever the operation.
\<close>

definition execute ::
  "('w \<Rightarrow> int) \<Rightarrow> ('w \<Rightarrow> ((thrown + 'a) \<times> 'w) option) \<Rightarrow> CircuitBreaker \<Rightarrow> 'w
     \<Rightarrow> ((thrown + 'a) \<times> CircuitBreaker \<times> 'w) option" where
  "execute now operation cb w =
     (if state cb = Open \<and> \<not> (now w - lastFailureTime cb > timeout cb)
      then Some (Inl circuitOpenError, cb, w)
      else
        let cb1 = (if state cb = Open then cb\<lparr>state := HalfOpen\<rparr> else cb)
        in case operation w of
             None \<Rightarrow> None
           | Some (Inr res, w') \<Rightarrow> Some (Inr res, onSuccess cb1, w')
           | Some (Inl err, w') \<Rightarrow> Some (Inl err, onFailure (now w') cb1, w'))"

text \<open>
  A run of calls on one breaker, each with its own operation, the world handed from one call
  to the next; the results of the calls are dropped.
\<close>

fun execute_all ::
  "('w \<Rightarrow> int) \<Rightarrow> ('w \<Rightarrow> ((thrown + 'a) \<times> 'w) option) list \<Rightarrow> CircuitBreaker \<Rightarrow> 'w
     \<Rightarrow> (CircuitBreaker \<times> 'w) option" where
  "execute_all now [] cb w = Some (cb, w)"
| "execute_all now (operation # rest) cb w =
     (case execute now operation cb w of
        None \<Rightarrow> None
      | Some (_, cb', w') \<Rightarrow> execute_all now rest cb' w')"

text \<open>An operation that settles with a rejection in every world, one that always fulfils.\<close>

definition always_fails :: "('w \<Rightarrow> ((thrown + 'a) \<times> 'w) option) \<Rightarrow> bool" where
  "always_fails operation = (\<forall>w. \<exists>e w'. operation w = Some (Inl e, w'))"

text \<open>
  Between two calls a breaker is never half-open, and it is open only with at least
  \<open>threshold\<close> failures counted.
\<close>

definition breaker_inv :: "CircuitBreaker \<Rightarrow> bool" where
  "breaker_inv cb =
     (state cb \<noteq> HalfOpen \<and> (state cb = Open \<longrightarrow> int (failureCount cb) \<ge> threshold cb))"

subsection \<open>Jobs, executions, configuration\<close>

datatype job_type = Scraping | DataProcessing | Export | Cleanup
  | UnknownType string    \<comment> \<open>a runtime value outside the declared union\<close>

record JobTarget =
  target_type :: job_type
  target_config :: string    \<comment> \<open>the opaque \<^verbatim>\<open>config\<close> bag\<close>

record RetryConfig =
  maxRetries :: int
  backoffMultiplier :: int
  initialDelay :: int

record JobMetadata =
  createdAt :: int
  updatedAt :: int
  lastRun :: "int option"
  nextRun :: "int option"
  runCount :: nat
  errorCount :: nat
  averageRunTime :: int

text \<open>\<^verbatim>\<open>Omit<ScheduledJob, 'metadata'>\<close>, the argument of \<^verbatim>\<open>createJob\<close>, and the job itself.\<close>

record JobData =
  id_job :: string
  name :: string
  description :: string
  cronExpression :: string
  target :: JobTarget
  priority :: int
  retryConfig :: RetryConfig
  dependencies :: "string list"
  timeout_job :: int
  enabled :: bool

record ScheduledJob = JobData +
  metadata :: JobMetadata

datatype job_status = Pending | Running | Completed | Failed | Timeout

record JobMetrics =
  memoryUsage :: int
  cpuUsage :: int
  duration :: int

text \<open>
  The id of an execution is the text \<^verbatim>\<open>`${jobId}_${Date.now()}`\<close>. The timestamp has no
  underscore in it, so the text determines the pair and the pair is used as the id.
\<close>

type_synonym exec_id = "string \<times> int"

record 'r JobExecution =
  id_exec :: exec_id
  jobId :: string
  startTime :: int
  endTime :: "int option"
  status :: job_status
  result :: "'r option"
  error :: "string option"
  retryAttempt :: int
  metrics :: JobMetrics

record SchedulerConfig =
  maxConcurrentJobs :: int
  jobPersistencePath :: string
  executionHistoryLimit :: int
  healthCheckInterval :: int
  circuitBreakerThreshold :: int
  resourceMonitoring :: bool

definition defaultConfig :: SchedulerConfig where
  "defaultConfig =
     \<lparr>maxConcurrentJobs = 5, jobPersistencePath = ''./data/jobs'', executionHistoryLimit = 1000,
      healthCheckInterval = 30000, circuitBreakerThreshold = 5, resourceMonitoring = True\<rparr>"

datatype 'r event =
  JobCreated ScheduledJob
| JobCompleted ScheduledJob "'r JobExecution"
| JobFailed ScheduledJob "'r JobExecution" thrown

subsection \<open>PriorityJobQueue: the lanes\<close>

text \<open>The options each \<^verbatim>\<open>PQueue\<close> is constructed with.\<close>

record PQueueOptions =
  concurrency :: int
  intervalCap :: int
  interval :: int

text \<open>
  The constructor's loop \<^verbatim>\<open>for (priority = 1; priority <= 5; priority++)\<close>, each round one
  \<^verbatim>\<open>this.queues.set\<close>. \<^verbatim>\<open>Math.floor(concurrency / priority)\<close> is \<open>div\<close> on integers, the
  divisor being positive.
\<close>

definition newPQueue :: "int \<Rightarrow> int \<Rightarrow> PQueueOptions" where
  "newPQueue concurrency_total priority_lane =
     \<lparr>concurrency = max 1 (concurrency_total div priority_lane), intervalCap = 10, interval = 1000\<rparr>"

definition newPriorityJobQueue :: "int \<Rightarrow> (int \<rightharpoonup> PQueueOptions)" where
  "newPriorityJobQueue concurrency_total =
     foldl (\<lambda>queues priority_lane. queues(priority_lane \<mapsto> newPQueue concurrency_total priority_lane))
       Map.empty [1, 2, 3, 4, 5]"

subsection \<open>The manager's state and its environment\<close>

text \<open>
  The fields of \<^verbatim>\<open>SchedulerJobManager\<close>, followed by the part of the process around it that
  the code reads and writes: the clock, the tasks node-cron has running, the events emitted,
  and three logs that only observe (how often a job body was entered, the delays the retry
  loop slept, every assignment to the status of an execution).

  \<^verbatim>\<open>jobs\<close>, \<^verbatim>\<open>cronTasks\<close> and \<^verbatim>\<open>circuitBreakers\<close> are maps; \<^verbatim>\<open>executions\<close> is an
  association list in insertion order with \<^verbatim>\<open>Map.set\<close> as \<open>AList.update\<close> (in place when
  the key is there, appended otherwise), as the order of a JavaScript \<^verbatim>\<open>Map\<close> decides
  ties when the history is sorted. A cron task is named by a handle, its creation number.
\<close>

record 'r scheduler =
  config :: SchedulerConfig
  jobs :: "string \<rightharpoonup> ScheduledJob"
  cronTasks :: "string \<rightharpoonup> nat"
  executions :: "(exec_id \<times> 'r JobExecution) list"
  queues :: "int \<rightharpoonup> PQueueOptions"
  circuitBreakers :: "string \<rightharpoonup> CircuitBreaker"
  isShuttingDown :: bool
  clock :: int
  startedTasks :: "(nat \<times> string \<times> string) list"
  tasksCreated :: nat
  emitted :: "'r event list"
  bodyCalls :: nat
  sleeps :: "int list"
  statusLog :: "(exec_id \<times> job_status) list"

text \<open>
  What the code calls and does not define. The four executors of \<^verbatim>\<open>executeJobLogic\<close> are
  taken as the job-body resolver: given the \<^verbatim>\<open>config\<close> and the number of body calls made
  before this one, the settlement of the call and the milliseconds it took.
  \<^verbatim>\<open>process.memoryUsage()\<close> gives \<^verbatim>\<open>heapUsed\<close> and \<^verbatim>\<open>heapTotal\<close> for a clock reading.
  \<^verbatim>\<open>persistJobs\<close> is not in the source file as given: it is taken as what it throws, if
  anything, for a clock reading.
\<close>

record 'r env =
  executeScraping :: "string \<Rightarrow> nat \<Rightarrow> (thrown + 'r) \<times> nat"
  executeDataProcessing :: "string \<Rightarrow> nat \<Rightarrow> (thrown + 'r) \<times> nat"
  executeExport :: "string \<Rightarrow> nat \<Rightarrow> (thrown + 'r) \<times> nat"
  executeCleanup :: "string \<Rightarrow> nat \<Rightarrow> (thrown + 'r) \<times> nat"
  process_memoryUsage :: "int \<Rightarrow> nat \<times> nat"
  cron_validate :: "string \<Rightarrow> bool"
  persistJobs :: "int \<Rightarrow> thrown option"

text \<open>
  The constructor, with the configuration already merged over \<open>defaultConfig\<close>. Loading the
  persisted jobs and the health-check timer are not part of the source given.
\<close>

definition newSchedulerJobManager :: "SchedulerConfig \<Rightarrow> int \<Rightarrow> 'r scheduler" where
  "newSchedulerJobManager cfg now =
     \<lparr>config = cfg, jobs = Map.empty, cronTasks = Map.empty, executions = [],
      queues = newPriorityJobQueue (maxConcurrentJobs cfg), circuitBreakers = Map.empty,
      isShuttingDown = False, clock = now, startedTasks = [], tasksCreated = 0, emitted = [],
      bodyCalls = 0, sleeps = [], statusLog = []\<rparr>"

subsection \<open>Numbers as text\<close>

text \<open>What a template literal prints for an integer.\<close>

function string_of_nat :: "nat \<Rightarrow> string" where
  "string_of_nat n =
     (if n < 10 then [''0123456789'' ! n]
      else string_of_nat (n div 10) @ [''0123456789'' ! (n mod 10)])"
  by pat_completeness auto
termination
  by (relation "measure (\<lambda>n. n)") auto

declare string_of_nat.simps [simp del]


subsection \<open>ResourceMonitor\<close>







subsection \<open>PriorityJobQueue: admission\<close>






subsection \<open>The job body and the retry loop\<close>









subsection \<open>Dependencies\<close>

text \<open>\<^verbatim>\<open>!job.metadata.lastRun\<close>: true of \<^verbatim>\<open>undefined\<close> and of 0.\<close>

fun falsy :: "int option \<Rightarrow> bool" where
  "falsy None = True"
| "falsy (Some t) = (t = 0)"

fun dependencies_loop :: "(string \<rightharpoonup> ScheduledJob) \<Rightarrow> string list \<Rightarrow> bool" where
  "dependencies_loop registry [] = True"
| "dependencies_loop registry (depJobId # rest) =
     (case registry depJobId of
        None \<Rightarrow> False
      | Some job \<Rightarrow>
          if falsy (lastRun (metadata job)) \<or> errorCount (metadata job) > 0 then False
          else dependencies_loop registry rest)"

definition checkDependencies :: "'r scheduler \<Rightarrow> string list \<Rightarrow> bool" where
  "checkDependencies s deps =
     (if length deps = 0 then True else dependencies_loop (jobs s) deps)"

subsection \<open>The execution history\<close>

text \<open>
  \<^verbatim>\<open>array.slice(0, end)\<close>: a negative \<^verbatim>\<open>end\<close> counts from the end of the array.
\<close>

definition js_slice0 :: "int \<Rightarrow> 'a list \<Rightarrow> 'a list" where
  "js_slice0 end_index xs =
     (if end_index < 0 then take (nat (int (length xs) + end_index)) xs
      else take (nat end_index) xs)"

text \<open>
  \<^verbatim>\<open>cleanupExecutionHistory\<close>. \<^verbatim>\<open>Array.prototype.sort\<close> is stable, as \<open>sort_key\<close> is; the
  comparator \<^verbatim>\<open>b.startTime - a.startTime\<close> orders by descending start time, that is by
  ascending negated start time. After \<^verbatim>\<open>clear()\<close> the kept entries are set again one by one.
\<close>

definition cleanupExecutionHistory :: "'r scheduler \<Rightarrow> 'r scheduler" where
  "cleanupExecutionHistory s =
     (if int (length (executions s)) \<le> executionHistoryLimit (config s) then s
      else
        let kept = js_slice0 (executionHistoryLimit (config s))
                     (sort_key (\<lambda>entry. - startTime (snd entry)) (executions s))
        in s\<lparr>executions := foldl (\<lambda>m entry. AList.update (fst entry) (snd entry) m) [] kept\<rparr>)"

subsection \<open>Scheduling and creating jobs\<close>

definition getNextRunTime :: "'r scheduler \<Rightarrow> string \<Rightarrow> int" where
  "getNextRunTime s cronExpr = clock s + 60000"

text \<open>
  \<^verbatim>\<open>scheduleJob(job)\<close>: a new task is created, stored under the job's id and started; nothing
  is done to a task already stored there. The job passed is the object held in
  \<^verbatim>\<open>this.jobs\<close> at both call sites, so the write to its \<^verbatim>\<open>nextRun\<close> shows in the registry;
  the object is returned as the caller goes on to use it.
\<close>

definition scheduleJob :: "ScheduledJob \<Rightarrow> 'r scheduler \<Rightarrow> ScheduledJob \<times> 'r scheduler" where
  "scheduleJob job s =
     (let cronTask = tasksCreated s;
          s = s\<lparr>tasksCreated := tasksCreated s + 1\<rparr>;
          s = s\<lparr>cronTasks := (cronTasks s)(id_job job \<mapsto> cronTask)\<rparr>;
          s = s\<lparr>startedTasks := startedTasks s @ [(cronTask, cronExpression job, id_job job)]\<rparr>;
          job = job\<lparr>metadata := (metadata job)\<lparr>nextRun := Some (getNextRunTime s (cronExpression job))\<rparr>\<rparr>
      in (job, s\<lparr>jobs := (jobs s)(id_job job \<mapsto> job)\<rparr>))"

text \<open>\<^verbatim>\<open>JobSchema.parse\<close> accepts exactly these; otherwise it throws zod's error.\<close>

definition JobSchema_accepts :: "JobData \<Rightarrow> bool" where
  "JobSchema_accepts d =
     (length (name d) \<ge> 1
      \<and> (case target_type (target d) of UnknownType t \<Rightarrow> False | _ \<Rightarrow> True)
      \<and> priority d \<ge> 1 \<and> priority d \<le> 5
      \<and> maxRetries (retryConfig d) \<ge> 0
      \<and> backoffMultiplier (retryConfig d) \<ge> 1
      \<and> initialDelay (retryConfig d) \<ge> 100
      \<and> timeout_job d \<ge> 1000)"

definition zodError :: thrown where
  "zodError = ErrorObj ''ZodError''"

definition createJob :: "'r env \<Rightarrow> JobData \<Rightarrow> 'r scheduler \<Rightarrow> (thrown + string) \<times> 'r scheduler" where
  "createJob env jobData s =
     (if \<not> JobSchema_accepts jobData then (Inl zodError, s)
      else
        let job = \<lparr>id_job = id_job jobData, name = name jobData, description = description jobData,
                   cronExpression = cronExpression jobData, target = target jobData,
                   priority = priority jobData, retryConfig = retryConfig jobData,
                   dependencies = dependencies jobData, timeout_job = timeout_job jobData,
                   enabled = enabled jobData,
                   metadata = \<lparr>createdAt = clock s, updatedAt = clock s, lastRun = None,
                               nextRun = None, runCount = 0, errorCount = 0, averageRunTime = 0\<rparr>\<rparr>
        in if \<not> cron_validate env (cronExpression job)
           then (Inl (ErrorObj (''Invalid cron expression: '' @ cronExpression job)), s)
           else
             let s = s\<lparr>jobs := (jobs s)(id_job job \<mapsto> job)\<rparr>;
                 (job, s) = (if enabled job then scheduleJob job s else (job, s))
             in case persistJobs env (clock s) of
                  Some err \<Rightarrow> (Inl err, s)
                | None \<Rightarrow> (Inr (id_job job), s\<lparr>emitted := emitted s @ [JobCreated job]\<rparr>))"

subsection \<open>Executing a job\<close>





text \<open>
  The object literal \<^verbatim>\<open>execution\<close> of \<^verbatim>\<open>executeJob\<close>, for the clock reading \<open>now\<close>: the
  two calls of \<^verbatim>\<open>Date.now()\<close>, for the id and for \<^verbatim>\<open>startTime\<close>, follow each other directly
  and are taken to read the same millisecond.
\<close>

definition newExecution :: "string \<Rightarrow> int \<Rightarrow> 'r JobExecution" where
  "newExecution job_id now =
     \<lparr>id_exec = (job_id, now), jobId = job_id, startTime = now, endTime = None,
      status = Pending, result = None, error = None, retryAttempt = 0,
      metrics = \<lparr>memoryUsage = 0, cpuUsage = 0, duration = 0\<rparr>\<rparr>"



subsection \<open>Concrete environments and jobs\<close>

text \<open>
  An environment in which all four executors behave as \<open>body\<close>, the heap reads as \<open>heap\<close>,
  every cron expression is valid and persisting never fails.
\<close>

definition simple_env :: "(nat \<Rightarrow> (thrown + 'r) \<times> nat) \<Rightarrow> (int \<Rightarrow> nat \<times> nat) \<Rightarrow> 'r env" where
  "simple_env body heap =
     \<lparr>executeScraping = (\<lambda>cfg. body), executeDataProcessing = (\<lambda>cfg. body),
      executeExport = (\<lambda>cfg. body), executeCleanup = (\<lambda>cfg. body),
      process_memoryUsage = heap, cron_validate = (\<lambda>expr. True), persistJobs = (\<lambda>t. None)\<rparr>"

text \<open>
  Operations on a world that is just the clock: each takes a millisecond; one always
  rejects, one always fulfils. A breaker with threshold 2 that opened at time 2.
\<close>

definition failing_op :: "int \<Rightarrow> ((thrown + unit) \<times> int) option" where
  "failing_op w = Some (Inl (ErrorObj ''down''), w + 1)"

definition succeeding_op :: "int \<Rightarrow> ((thrown + unit) \<times> int) option" where
  "succeeding_op w = Some (Inr (), w + 1)"

definition open_breaker :: CircuitBreaker where
  "open_breaker = \<lparr>failureCount = 2, lastFailureTime = 2, state = Open, threshold = 2, timeout = 60000\<rparr>"

text \<open>
  A job that passes the schema: priority 1, backoff 100 ms doubling, a time limit of 1000 ms,
  enabled; with the given id, target type, number of retries and dependencies, and with the
  given \<^verbatim>\<open>lastRun\<close> and \<^verbatim>\<open>errorCount\<close> in its metadata.
\<close>

definition example_data :: "string \<Rightarrow> job_type \<Rightarrow> int \<Rightarrow> string list \<Rightarrow> JobData" where
  "example_data i ty retries deps =
     \<lparr>id_job = i, name = ''job'', description = '''', cronExpression = ''* * * * *'',
      target = \<lparr>target_type = ty, target_config = ''{}''\<rparr>, priority = 1,
      retryConfig = \<lparr>maxRetries = retries, backoffMultiplier = 2, initialDelay = 100\<rparr>,
      dependencies = deps, timeout_job = 1000, enabled = True\<rparr>"

definition example_job ::
  "string \<Rightarrow> job_type \<Rightarrow> int \<Rightarrow> string list \<Rightarrow> int option \<Rightarrow> nat \<Rightarrow> ScheduledJob" where
  "example_job i ty retries deps ranAt errors =
     \<lparr>id_job = i, name = ''job'', description = '''', cronExpression = ''* * * * *'',
      target = \<lparr>target_type = ty, target_config = ''{}''\<rparr>, priority = 1,
      retryConfig = \<lparr>maxRetries = retries, backoffMultiplier = 2, initialDelay = 100\<rparr>,
      dependencies = deps, timeout_job = 1000, enabled = True,
      metadata = \<lparr>createdAt = 1000, updatedAt = 1000, lastRun = ranAt, nextRun = None,
                  runCount = (if ranAt = None then 0 else 1), errorCount = errors,
                  averageRunTime = 0\<rparr>\<rparr>"

text \<open>
  A body that rejects its first \<open>m\<close> calls, each with an error of its own, and fulfils from
  then on; every call takes \<open>ms\<close> milliseconds.
\<close>

definition flaky_body :: "nat \<Rightarrow> nat \<Rightarrow> nat \<Rightarrow> (thrown + nat) \<times> nat" where
  "flaky_body m ms n =
     (if n < m then (Inl (ErrorObj (''failure '' @ string_of_nat n)), ms) else (Inr n, ms))"

definition quiet_heap :: "int \<Rightarrow> nat \<times> nat" where
  "quiet_heap t = (50, 100)"

text \<open>A manager started at time 1000 with the default configuration and these jobs.\<close>

definition manager_with :: "ScheduledJob list \<Rightarrow> nat scheduler" where
  "manager_with js =
     (newSchedulerJobManager defaultConfig 1000)\<lparr>jobs := map_of (map (\<lambda>j. (id_job j, j)) js)\<rparr>"

text \<open>A manager whose history limit is \<open>limit\<close> and whose history holds these executions.\<close>

definition manager_with_history :: "int \<Rightarrow> nat JobExecution list \<Rightarrow> nat scheduler" where
  "manager_with_history limit history =
     (newSchedulerJobManager (defaultConfig\<lparr>executionHistoryLimit := limit\<rparr>) 1000)
       \<lparr>executions := map (\<lambda>e. (id_exec e, e)) history\<rparr>"



section \<open>Properties\<close>

subsection \<open>The lanes of the priority queue\<close>





subsection \<open>The resource monitor\<close>






subsection \<open>The circuit breaker\<close>

lemma execute_rejected:
  assumes "state cb = Open" "now w - lastFailureTime cb \<le> timeout cb"
  shows "execute now operation cb w = Some (Inl circuitOpenError, cb, w)"
  using assms by (simp add: execute_def)

lemma execute_admitted:
  assumes "\<not> (state cb = Open \<and> now w - lastFailureTime cb \<le> timeout cb)"
  shows "execute now operation cb w =
     (case operation w of
        None \<Rightarrow> None
      | Some (Inr res, w') \<Rightarrow> Some (Inr res, onSuccess (if state cb = Open then cb\<lparr>state := HalfOpen\<rparr> else cb), w')
      | Some (Inl err, w') \<Rightarrow> Some (Inl err, onFailure (now w') (if state cb = Open then cb\<lparr>state := HalfOpen\<rparr> else cb), w'))"
  using assms by (auto simp add: execute_def Let_def not_le)

lemma execute_failure:
  assumes "\<not> (state cb = Open \<and> now w - lastFailureTime cb \<le> timeout cb)"
    and "operation w = Some (Inl e, w')"
  shows "\<exists>cb'. execute now operation cb w = Some (Inl e, cb', w')
          \<and> failureCount cb' = failureCount cb + 1 \<and> lastFailureTime cb' = now w'
          \<and> threshold cb' = threshold cb \<and> timeout cb' = timeout cb
          \<and> state cb' = (if int (failureCount cb) + 1 \<ge> threshold cb then Open
                          else if state cb = Open then HalfOpen else state cb)"
  using assms by (auto simp: execute_admitted onFailure_def Let_def)

lemma execute_success:
  assumes "\<not> (state cb = Open \<and> now w - lastFailureTime cb \<le> timeout cb)"
    and "operation w = Some (Inr r, w')"
  shows "\<exists>cb'. execute now operation cb w = Some (Inr r, cb', w')
          \<and> failureCount cb' = 0 \<and> state cb' = Closed
          \<and> threshold cb' = threshold cb \<and> timeout cb' = timeout cb"
  using assms by (auto simp: execute_admitted onSuccess_def Let_def)

lemma breaker_inv_execute:
  assumes "breaker_inv cb" "execute now operation cb w = Some (r, cb', w')"
  shows "breaker_inv cb' \<and> threshold cb' = threshold cb \<and> timeout cb' = timeout cb"
  using assms
  by (auto simp: execute_def breaker_inv_def onSuccess_def onFailure_def Let_def
           split: if_splits option.splits sum.splits prod.splits)

lemma failures_from_closed:
  assumes "state cb = Closed" "int (failureCount cb) < threshold cb"
    and "int (failureCount cb + length ops) \<le> threshold cb"
    and "\<forall>operation\<in>set ops. always_fails operation"
  shows "\<exists>cb' w'. execute_all now ops cb w = Some (cb', w')
           \<and> failureCount cb' = failureCount cb + length ops
           \<and> threshold cb' = threshold cb \<and> timeout cb' = timeout cb
           \<and> state cb' = (if int (failureCount cb + length ops) = threshold cb then Open else Closed)"
  using assms
proof (induction ops arbitrary: cb w)
  case Nil
  then show ?case by simp
next
  case (Cons operation rest)
  from Cons.prems(4) obtain e w1 where op: "operation w = Some (Inl e, w1)"
    unfolding always_fails_def by (metis list.set_intros(1))
  from execute_failure[of cb now w operation e w1] Cons.prems(1) op
  obtain cb1 where ex: "execute now operation cb w = Some (Inl e, cb1, w1)"
    and fc: "failureCount cb1 = failureCount cb + 1"
    and th: "threshold cb1 = threshold cb" "timeout cb1 = timeout cb"
    and st: "state cb1 = (if int (failureCount cb) + 1 \<ge> threshold cb then Open else Closed)"
    by auto
  show ?case
  proof (cases "int (failureCount cb) + 1 \<ge> threshold cb")
    case True
    have "int (failureCount cb) + 1 + int (length rest) \<le> threshold cb"
      using Cons.prems(3) by simp
    with True have "int (length rest) \<le> 0" by linarith
    then have "rest = []" by simp
    with True ex fc th st Cons.prems(3) show ?thesis by auto
  next
    case False
    with st fc th Cons.prems have
      "state cb1 = Closed" "int (failureCount cb1) < threshold cb1"
      "int (failureCount cb1 + length rest) \<le> threshold cb1"
      "\<forall>operation\<in>set rest. always_fails operation"
      by auto
    from Cons.IH[OF this, of w1] ex fc th show ?thesis by auto
  qed
qed

text \<open>
  Claim C1. A new breaker is closed with no failure counted. Every call that is let through
  and fails adds one to \<open>failureCount\<close> and stores the time of the failure. With a threshold
  \<open>N \<ge> 1\<close>, a run of failures from the new breaker leaves it closed as long as it is shorter
  than \<open>N\<close> and open when it reaches \<open>N\<close>. An open breaker rejects a call without running
  the operation (the world stays as it was, whatever the operation) as long as no more than
  \<open>timeout\<close> has passed since the last failure; after that the call is let through, and
  closes the breaker with the count at 0 when it succeeds, or leaves it open with the time
  of the failure stored when it fails. Between calls the breaker is never half-open, and
  open only with at least \<open>threshold\<close> failures counted (\<open>breaker_inv\<close>): a success at any
  point resets the count.
\<close>

theorem circuit_breaker_machine:
  "state (newCircuitBreaker N T) = Closed \<and> failureCount (newCircuitBreaker N T) = 0
   \<and> breaker_inv (newCircuitBreaker N T)
   \<and> (breaker_inv cb \<and> execute now operation cb w = Some (r, cb', w') \<longrightarrow> breaker_inv cb')
   \<and> (\<not> (state cb = Open \<and> now w - lastFailureTime cb \<le> timeout cb)
        \<and> operation w = Some (Inl e, w') \<longrightarrow>
        (\<exists>cb'. execute now operation cb w = Some (Inl e, cb', w')
           \<and> failureCount cb' = failureCount cb + 1 \<and> lastFailureTime cb' = now w'))
   \<and> (1 \<le> N \<and> int (length ops) \<le> N \<and> (\<forall>operation\<in>set ops. always_fails operation) \<longrightarrow>
        (\<exists>cb' w'. execute_all now ops (newCircuitBreaker N T) w = Some (cb', w')
           \<and> failureCount cb' = length ops
           \<and> state cb' = (if int (length ops) = N then Open else Closed)))
   \<and> (state cb = Open \<and> now w - lastFailureTime cb \<le> timeout cb \<longrightarrow>
        execute now operation cb w = Some (Inl circuitOpenError, cb, w))
   \<and> (\<not> (state cb = Open \<and> now w - lastFailureTime cb \<le> timeout cb)
        \<and> operation w = Some (Inr v, w') \<longrightarrow>
        (\<exists>cb'. execute now operation cb w = Some (Inr v, cb', w')
           \<and> state cb' = Closed \<and> failureCount cb' = 0))
   \<and> (breaker_inv cb \<and> state cb = Open \<and> now w - lastFailureTime cb > timeout cb
        \<and> operation w = Some (Inl e, w') \<longrightarrow>
        (\<exists>cb'. execute now operation cb w = Some (Inl e, cb', w')
           \<and> state cb' = Open \<and> lastFailureTime cb' = now w'))"
proof (intro conjI impI)
  show "breaker_inv cb'" if "breaker_inv cb \<and> execute now operation cb w = Some (r, cb', w')"
    using that breaker_inv_execute[of cb now operation w r cb' w'] by simp
  show "\<exists>cb'. execute now operation cb w = Some (Inl e, cb', w')
           \<and> failureCount cb' = failureCount cb + 1 \<and> lastFailureTime cb' = now w'"
    if "\<not> (state cb = Open \<and> now w - lastFailureTime cb \<le> timeout cb) \<and> operation w = Some (Inl e, w')"
    using that execute_failure[of cb now w operation e w'] by auto
  show "\<exists>cb' w'. execute_all now ops (newCircuitBreaker N T) w = Some (cb', w')
           \<and> failureCount cb' = length ops
           \<and> state cb' = (if int (length ops) = N then Open else Closed)"
    if "1 \<le> N \<and> int (length ops) \<le> N \<and> (\<forall>operation\<in>set ops. always_fails operation)"
    using that failures_from_closed[of "newCircuitBreaker N T" ops now w]
    by (auto simp: newCircuitBreaker_def)
  show "execute now operation cb w = Some (Inl circuitOpenError, cb, w)"
    if "state cb = Open \<and> now w - lastFailureTime cb \<le> timeout cb"
    using that execute_rejected[of cb now w operation] by simp
  show "\<exists>cb'. execute now operation cb w = Some (Inr v, cb', w')
           \<and> state cb' = Closed \<and> failureCount cb' = 0"
    if "\<not> (state cb = Open \<and> now w - lastFailureTime cb \<le> timeout cb) \<and> operation w = Some (Inr v, w')"
    using that execute_success[of cb now w operation v w'] by auto
  show "\<exists>cb'. execute now operation cb w = Some (Inl e, cb', w')
           \<and> state cb' = Open \<and> lastFailureTime cb' = now w'"
    if "breaker_inv cb \<and> state cb = Open \<and> now w - lastFailureTime cb > timeout cb \<and> operation w = Some (Inl e, w')"
    using that execute_failure[of cb now w operation e w'] by (auto simp: breaker_inv_def)
qed (simp_all add: newCircuitBreaker_def breaker_inv_def)

theorem circuit_breaker_machine_witness:
  "(\<exists>cb' w'. execute_all (\<lambda>w. w) [failing_op, failing_op] (newCircuitBreaker 2 60000) 0 = Some (cb', w')
       \<and> failureCount cb' = 2 \<and> state cb' = Open)
   \<and> (\<exists>cb' w'. execute_all (\<lambda>w. w) [failing_op] (newCircuitBreaker 2 60000) 0 = Some (cb', w')
       \<and> failureCount cb' = 1 \<and> state cb' = Closed)
   \<and> execute (\<lambda>w. w) failing_op open_breaker 60002 = Some (Inl circuitOpenError, open_breaker, 60002)
   \<and> (\<exists>cb'. execute (\<lambda>w. w) succeeding_op open_breaker 60003 = Some (Inr (), cb', 60004)
       \<and> state cb' = Closed \<and> failureCount cb' = 0)
   \<and> (\<exists>cb'. execute (\<lambda>w. w) failing_op open_breaker 60003 = Some (Inl (ErrorObj ''down''), cb', 60004)
       \<and> state cb' = Open \<and> lastFailureTime cb' = 60004)"
proof -
  have fails: "always_fails failing_op"
    by (simp add: always_fails_def failing_op_def)
  have inv: "breaker_inv open_breaker"
    by (simp add: breaker_inv_def open_breaker_def)
  have a: "\<exists>cb' w'. execute_all (\<lambda>w. w) [failing_op, failing_op] (newCircuitBreaker 2 60000) 0 = Some (cb', w')
       \<and> failureCount cb' = 2 \<and> state cb' = Open"
    using circuit_breaker_machine[where N = 2 and ops = "[failing_op, failing_op]" and now = "\<lambda>w. w"
            and T = 60000 and w = 0, THEN conjunct2, THEN conjunct2, THEN conjunct2,
            THEN conjunct2, THEN conjunct2, THEN conjunct1] fails
    by (simp del: execute_all.simps add: numeral_2_eq_2)
  have b: "\<exists>cb' w'. execute_all (\<lambda>w. w) [failing_op] (newCircuitBreaker 2 60000) 0 = Some (cb', w')
       \<and> failureCount cb' = 1 \<and> state cb' = Closed"
    using circuit_breaker_machine[where N = 2 and ops = "[failing_op]" and now = "\<lambda>w. w"
            and T = 60000 and w = 0, THEN conjunct2, THEN conjunct2, THEN conjunct2,
            THEN conjunct2, THEN conjunct2, THEN conjunct1] fails
    by (simp del: execute_all.simps)
  have c: "execute (\<lambda>w. w) failing_op open_breaker 60002 = Some (Inl circuitOpenError, open_breaker, 60002)"
    using circuit_breaker_machine[where cb = open_breaker and now = "\<lambda>w. w" and w = 60002
            and operation = failing_op, THEN conjunct2, THEN conjunct2, THEN conjunct2,
            THEN conjunct2, THEN conjunct2, THEN conjunct2, THEN conjunct1]
    by (simp add: open_breaker_def)
  have d: "\<exists>cb'. execute (\<lambda>w. w) succeeding_op open_breaker 60003 = Some (Inr (), cb', 60004)
       \<and> state cb' = Closed \<and> failureCount cb' = 0"
    using circuit_breaker_machine[where cb = open_breaker and now = "\<lambda>w. w" and w = 60003
            and operation = succeeding_op and v = "()" and w' = 60004,
            THEN conjunct2, THEN conjunct2, THEN conjunct2, THEN conjunct2, THEN conjunct2,
            THEN conjunct2, THEN conjunct2, THEN conjunct1]
    by (simp add: open_breaker_def succeeding_op_def)
  have e: "\<exists>cb'. execute (\<lambda>w. w) failing_op open_breaker 60003 = Some (Inl (ErrorObj ''down''), cb', 60004)
       \<and> state cb' = Open \<and> lastFailureTime cb' = 60004"
    using circuit_breaker_machine[where cb = open_breaker and now = "\<lambda>w. w" and w = 60003
            and operation = failing_op and e = "ErrorObj ''down''" and w' = 60004,
            THEN conjunct2, THEN conjunct2, THEN conjunct2, THEN conjunct2, THEN conjunct2,
            THEN conjunct2, THEN conjunct2, THEN conjunct2] inv
    by (simp add: open_breaker_def failing_op_def)
  from a b c d e show ?thesis by blast
qed

subsection \<open>The dependency gate\<close>

lemma falsy_iff: "falsy x \<longleftrightarrow> x = None \<or> x = Some 0"
  by (cases x) auto

lemma dependencies_loop_iff:
  assumes "\<forall>job\<in>ran registry. lastRun (metadata job) \<noteq> Some 0"
  shows "dependencies_loop registry deps \<longleftrightarrow>
     (\<forall>d\<in>set deps. \<exists>job. registry d = Some job \<and> lastRun (metadata job) \<noteq> None
          \<and> errorCount (metadata job) = 0)"
proof (induction deps)
  case Nil
  show ?case by simp
next
  case (Cons d deps)
  show ?case
  proof (cases "registry d")
    case None
    then show ?thesis by simp
  next
    case (Some job)
    then have "job \<in> ran registry" by (auto simp: ran_def)
    with assms have "lastRun (metadata job) \<noteq> Some 0" by blast
    with Some Cons.IH show ?thesis by (simp add: falsy_iff)
  qed
qed

text \<open>
  Claim C5. The gate answers ready for the empty list, and for any list exactly when every
  id listed is in the registry with \<^verbatim>\<open>lastRun\<close> set and an \<^verbatim>\<open>errorCount\<close> of 0. The code
  tests \<^verbatim>\<open>!job.metadata.lastRun\<close>, so a \<^verbatim>\<open>lastRun\<close> of 0 counts as not set; \<^verbatim>\<open>lastRun\<close>
  only ever receives the start time of an execution, a reading of \<^verbatim>\<open>Date.now()\<close>, which is
  not 0 on a clock that is past 1 January 1970. That is the hypothesis.
\<close>

theorem dependency_gate:
  assumes "\<forall>job\<in>ran (jobs s). lastRun (metadata job) \<noteq> Some 0"
  shows "checkDependencies s [] = True
     \<and> (checkDependencies s deps \<longleftrightarrow>
          (\<forall>d\<in>set deps. \<exists>job. jobs s d = Some job \<and> lastRun (metadata job) \<noteq> None
              \<and> errorCount (metadata job) = 0))"
  using dependencies_loop_iff[OF assms, of deps]
  by (cases deps) (simp_all add: checkDependencies_def)

theorem dependency_gate_witness:
  "checkDependencies (manager_with [example_job ''a'' Scraping 2 [] (Some 900) 0,
                                    example_job ''b'' Scraping 2 [] None 0]) [''a'']
   \<and> \<not> checkDependencies (manager_with [example_job ''a'' Scraping 2 [] (Some 900) 0,
                                    example_job ''b'' Scraping 2 [] None 0]) [''a'', ''b'']"
proof -
  let ?s = "manager_with [example_job ''a'' Scraping 2 [] (Some 900) 0,
                          example_job ''b'' Scraping 2 [] None 0]"
  have h: "\<forall>job\<in>ran (jobs ?s). lastRun (metadata job) \<noteq> Some 0"
    by (auto simp: manager_with_def example_job_def ran_def split: if_splits)
  show ?thesis
    using dependency_gate[OF h, of "[''a'']"] dependency_gate[OF h, of "[''a'', ''b'']"]
    by (simp add: manager_with_def example_job_def)
qed

subsection \<open>The retry loop\<close>





subsection \<open>Trimming the history\<close>

lemma update_fresh: "k \<notin> fst ` set al \<Longrightarrow> AList.update k v al = al @ [(k, v)]"
  by (induction al) auto

lemma rebuild_distinct:
  "distinct (map fst (acc @ kept)) \<Longrightarrow>
     foldl (\<lambda>m entry. AList.update (fst entry) (snd entry) m) acc kept = acc @ kept"
proof (induction kept arbitrary: acc)
  case Nil
  then show ?case by simp
next
  case (Cons entry kept)
  from Cons.prems have "fst entry \<notin> fst ` set acc" by auto
  then have "AList.update (fst entry) (snd entry) acc = acc @ [entry]"
    by (simp add: update_fresh)
  moreover from Cons.prems have "distinct (map fst ((acc @ [entry]) @ kept))" by simp
  ultimately show ?case using Cons.IH[of "acc @ [entry]"] by simp
qed

lemma distinct_keys_sort_key:
  "distinct (map fst xs) \<Longrightarrow> distinct (map fst (sort_key f xs))"
  by (simp add: distinct_map)

lemma cleanup_kept:
  assumes "distinct (map fst (executions s))" "0 \<le> executionHistoryLimit (config s)"
    and "int (length (executions s)) > executionHistoryLimit (config s)"
  shows "executions (cleanupExecutionHistory s)
           = take (nat (executionHistoryLimit (config s)))
               (sort_key (\<lambda>entry. - startTime (snd entry)) (executions s))"
proof -
  let ?S = "sort_key (\<lambda>entry. - startTime (snd entry)) (executions s)"
  let ?n = "nat (executionHistoryLimit (config s))"
  have "distinct (map fst (take ?n ?S))"
    using distinct_keys_sort_key[OF assms(1)] by (metis distinct_take take_map)
  then have "foldl (\<lambda>m entry. AList.update (fst entry) (snd entry) m) [] (take ?n ?S) = take ?n ?S"
    using rebuild_distinct[of "[]" "take ?n ?S"] by simp
  then show ?thesis
    using assms by (simp add: cleanupExecutionHistory_def js_slice0_def Let_def)
qed

text \<open>
  Claim C8. For a history limit that is not negative and a ledger whose keys are distinct
  (as the keys of a \<^verbatim>\<open>Map\<close> are): after \<^verbatim>\<open>cleanupExecutionHistory\<close> the ledger holds at most
  \<open>executionHistoryLimit\<close> entries; a ledger within the limit is left as it is, and so is
  the rest of the state; a ledger over the limit is cut to exactly \<open>executionHistoryLimit\<close>
  of its entries, and every entry evicted started no later than every entry kept.
\<close>

theorem history_trim:
  assumes "distinct (map fst (executions s))" "0 \<le> executionHistoryLimit (config s)"
  shows "int (length (executions (cleanupExecutionHistory s))) \<le> executionHistoryLimit (config s)
     \<and> (int (length (executions s)) \<le> executionHistoryLimit (config s) \<longrightarrow>
          cleanupExecutionHistory s = s)
     \<and> (int (length (executions s)) > executionHistoryLimit (config s) \<longrightarrow>
          int (length (executions (cleanupExecutionHistory s))) = executionHistoryLimit (config s)
          \<and> set (executions (cleanupExecutionHistory s)) \<subseteq> set (executions s)
          \<and> distinct (map fst (executions (cleanupExecutionHistory s)))
          \<and> (\<forall>evicted\<in>set (executions s) - set (executions (cleanupExecutionHistory s)).
               \<forall>kept\<in>set (executions (cleanupExecutionHistory s)).
                 startTime (snd evicted) \<le> startTime (snd kept)))"
proof (cases "int (length (executions s)) \<le> executionHistoryLimit (config s)")
  case True
  then show ?thesis by (simp add: cleanupExecutionHistory_def)
next
  case False
  let ?f = "\<lambda>entry :: exec_id \<times> 'a JobExecution. - startTime (snd entry)"
  let ?S = "sort_key ?f (executions s)"
  let ?n = "nat (executionHistoryLimit (config s))"
  from False have gt: "int (length (executions s)) > executionHistoryLimit (config s)" by simp
  have kept: "executions (cleanupExecutionHistory s) = take ?n ?S"
    using cleanup_kept[OF assms gt] .
  have len: "int (length (take ?n ?S)) = executionHistoryLimit (config s)"
    using gt assms(2) by simp
  have sub: "set (take ?n ?S) \<subseteq> set (executions s)"
    using set_take_subset[of ?n ?S] by simp
  have dist: "distinct (map fst (take ?n ?S))"
    using distinct_keys_sort_key[OF assms(1)] by (metis distinct_take take_map)
  have "sorted (map ?f ?S)"
    by (rule sorted_sort_key)
  moreover have "map ?f ?S = map ?f (take ?n ?S) @ map ?f (drop ?n ?S)"
    by (metis append_take_drop_id map_append)
  ultimately have "sorted (map ?f (take ?n ?S) @ map ?f (drop ?n ?S))"
    by simp
  then have ord: "\<forall>x\<in>set (take ?n ?S). \<forall>y\<in>set (drop ?n ?S). ?f x \<le> ?f y"
    unfolding sorted_append by auto
  have "set (executions s) = set (take ?n ?S) \<union> set (drop ?n ?S)"
    by (metis append_take_drop_id set_append set_sort)
  with ord have "\<forall>evicted\<in>set (executions s) - set (take ?n ?S). \<forall>k\<in>set (take ?n ?S).
      startTime (snd evicted) \<le> startTime (snd k)"
    by auto
  with kept len sub dist gt show ?thesis by simp
qed

theorem history_trim_witness:
  "distinct (map fst (executions (manager_with_history 2
       [newExecution ''a'' 1, newExecution ''a'' 3, newExecution ''a'' 2])))
   \<and> int (length (executions (manager_with_history 2
       [newExecution ''a'' 1, newExecution ''a'' 3, newExecution ''a'' 2])))
       > executionHistoryLimit (config (manager_with_history 2
       [newExecution ''a'' 1, newExecution ''a'' 3, newExecution ''a'' 2]))
   \<and> map fst (executions (cleanupExecutionHistory (manager_with_history 2
       [newExecution ''a'' 1, newExecution ''a'' 3, newExecution ''a'' 2])))
       = [(''a'', 3), (''a'', 2)]
   \<and> int (length (executions (cleanupExecutionHistory (manager_with_history 2
       [newExecution ''a'' 1, newExecution ''a'' 3, newExecution ''a'' 2])))) = 2"
proof -
  let ?s = "manager_with_history 2 [newExecution ''a'' 1, newExecution ''a'' 3, newExecution ''a'' 2]"
  have d: "distinct (map fst (executions ?s))"
    by (simp add: manager_with_history_def newExecution_def)
  have l: "0 \<le> executionHistoryLimit (config ?s)"
    by (simp add: manager_with_history_def newSchedulerJobManager_def)
  have g: "int (length (executions ?s)) > executionHistoryLimit (config ?s)"
    by (simp add: manager_with_history_def newSchedulerJobManager_def)
  have v: "map fst (executions (cleanupExecutionHistory ?s)) = [(''a'', 3), (''a'', 2)]"
    by (simp add: manager_with_history_def newSchedulerJobManager_def newExecution_def
          cleanupExecutionHistory_def js_slice0_def defaultConfig_def numeral_2_eq_2)
  have "int (length (executions (cleanupExecutionHistory ?s))) = executionHistoryLimit (config ?s)"
    using history_trim[OF d l] g by blast
  then have "int (length (executions (cleanupExecutionHistory ?s))) = 2"
    by (simp add: manager_with_history_def newSchedulerJobManager_def)
  with d g v show ?thesis by blast
qed

subsection \<open>Creating a job under an id that is taken\<close>

text \<open>
  Claim C10. Let the id of a valid definition (one the schema and the cron validator
  accept) be in the registry already. \<^verbatim>\<open>createJob\<close> has no error for that: it returns the
  id, unless persisting fails, and then what it throws is the error of \<^verbatim>\<open>persistJobs\<close>. The
  registry holds the new definition under the id, with \<^verbatim>\<open>runCount\<close>, \<^verbatim>\<open>errorCount\<close> and
  \<^verbatim>\<open>averageRunTime\<close> at 0 and \<^verbatim>\<open>lastRun\<close> unset, and no other entry has changed. When the
  new job is enabled, a new task is stored under the id and started, and every task that
  was started before is still started: the task stored under the id before is not stopped.
\<close>

theorem createJob_replaces:
  assumes "jobs s (id_job d) = Some old" "JobSchema_accepts d" "cron_validate env (cronExpression d)"
  shows "fst (createJob env d s) = (case persistJobs env (clock s) of
                                      None \<Rightarrow> Inr (id_job d) | Some err \<Rightarrow> Inl err)
     \<and> (\<exists>job. jobs (snd (createJob env d s)) (id_job d) = Some job
           \<and> id_job job = id_job d \<and> name job = name d \<and> description job = description d
           \<and> cronExpression job = cronExpression d \<and> target job = target d
           \<and> priority job = priority d \<and> retryConfig job = retryConfig d
           \<and> dependencies job = dependencies d \<and> timeout_job job = timeout_job d
           \<and> enabled job = enabled d
           \<and> metadata job = \<lparr>createdAt = clock s, updatedAt = clock s, lastRun = None,
                 nextRun = (if enabled d then Some (clock s + 60000) else None),
                 runCount = 0, errorCount = 0, averageRunTime = 0\<rparr>)
     \<and> (\<forall>k. k \<noteq> id_job d \<longrightarrow> jobs (snd (createJob env d s)) k = jobs s k)
     \<and> (enabled d \<longrightarrow>
           cronTasks (snd (createJob env d s)) (id_job d) = Some (tasksCreated s)
           \<and> startedTasks (snd (createJob env d s))
               = startedTasks s @ [(tasksCreated s, cronExpression d, id_job d)])
     \<and> (\<not> enabled d \<longrightarrow>
           cronTasks (snd (createJob env d s)) = cronTasks s
           \<and> startedTasks (snd (createJob env d s)) = startedTasks s)"
  using assms
  by (auto simp: createJob_def scheduleJob_def getNextRunTime_def Let_def split: option.splits)

theorem createJob_replaces_witness:
  "jobs (snd (createJob (simple_env (flaky_body 0 5) quiet_heap) (example_data ''a'' Scraping 2 []) (manager_with [])))
       ''a'' \<noteq> None
   \<and> startedTasks (snd (createJob (simple_env (flaky_body 0 5) quiet_heap) (example_data ''a'' Scraping 2 []) (manager_with [])))
       = [(0, ''* * * * *'', ''a'')]
   \<and> fst (createJob (simple_env (flaky_body 0 5) quiet_heap) (example_data ''a'' Scraping 0 [])
        (snd (createJob (simple_env (flaky_body 0 5) quiet_heap) (example_data ''a'' Scraping 2 []) (manager_with []))))
       = Inr ''a''
   \<and> cronTasks (snd (createJob (simple_env (flaky_body 0 5) quiet_heap) (example_data ''a'' Scraping 0 [])
        (snd (createJob (simple_env (flaky_body 0 5) quiet_heap) (example_data ''a'' Scraping 2 []) (manager_with [])))))
        ''a'' = Some 1
   \<and> startedTasks (snd (createJob (simple_env (flaky_body 0 5) quiet_heap) (example_data ''a'' Scraping 0 [])
        (snd (createJob (simple_env (flaky_body 0 5) quiet_heap) (example_data ''a'' Scraping 2 []) (manager_with [])))))
       = [(0, ''* * * * *'', ''a''), (1, ''* * * * *'', ''a'')]"
proof -
  let ?env = "simple_env (flaky_body 0 5) quiet_heap"
  let ?s1 = "snd (createJob ?env (example_data ''a'' Scraping 2 []) (manager_with []))"
  let ?d = "example_data ''a'' Scraping 0 []"
  have acc: "JobSchema_accepts ?d"
    by (simp add: JobSchema_accepts_def example_data_def)
  have cv: "cron_validate ?env (cronExpression ?d)"
    by (simp add: simple_env_def)
  have s1: "jobs ?s1 (id_job ?d) = Some (example_job ''a'' Scraping 2 [] None 0\<lparr>metadata := (metadata (example_job ''a'' Scraping 2 [] None 0))\<lparr>nextRun := Some 61000\<rparr>\<rparr>)"
    "startedTasks ?s1 = [(0, ''* * * * *'', ''a'')]" "tasksCreated ?s1 = 1"
    "persistJobs ?env (clock ?s1) = None"
    by (simp_all add: createJob_def scheduleJob_def getNextRunTime_def Let_def JobSchema_accepts_def
          example_data_def example_job_def simple_env_def manager_with_def newSchedulerJobManager_def)
  show ?thesis
    using createJob_replaces[OF s1(1) acc cv] s1
    by (simp add: example_data_def)
qed

subsection \<open>Running a job\<close>














subsection \<open>Manual runs and the dependency gate\<close>




subsection \<open>Executions that fail\<close>




subsection \<open>The status of an execution\<close>




end
